theory Spec2Isabelle
  imports Main "HOL-Library.Sublist" "HOL-Library.Word"
begin

section \<open>Python strings\<close>

text \<open>
  A Python \<open>str\<close> is a sequence of Unicode code points and \<open>len\<close> counts code points, so
  a text is a list of code points (natural numbers), not a list of bytes.
\<close>

type_synonym ustring = "nat list"

text \<open>
  \<open>s[i:j]\<close> for integers \<open>i\<close>, \<open>j\<close> (step 1): a negative index counts from the end of the
  string, and every index is clamped into \<open>0..len(s)\<close>; the slice is empty when the adjusted
  start is not below the adjusted stop.
\<close>

definition slice_index :: "int \<Rightarrow> nat \<Rightarrow> nat" where
  "slice_index i n =
     (if i < 0 then (if i + int n < 0 then 0 else nat (i + int n))
      else if int n \<le> i then n else nat i)"

definition py_slice :: "'a list \<Rightarrow> int \<Rightarrow> int \<Rightarrow> 'a list" where
  "py_slice s i j =
     (let a = slice_index i (length s); b = slice_index j (length s)
      in take (b - a) (drop a s))"

text \<open>
  \<open>s.rfind(sub)\<close>: the highest index at which \<open>sub\<close> starts in \<open>s\<close>, or \<open>-1\<close>. The scan
  goes left to right and remembers the last position where \<open>sub\<close> is a prefix of the rest.
\<close>

fun rfind_aux :: "'a list \<Rightarrow> 'a list \<Rightarrow> nat \<Rightarrow> int \<Rightarrow> int" where
  "rfind_aux [] sub i acc = (if sub = [] then int i else acc)"
| "rfind_aux (x # xs) sub i acc =
     rfind_aux xs sub (Suc i) (if prefix sub (x # xs) then int i else acc)"

definition rfind :: "'a list \<Rightarrow> 'a list \<Rightarrow> int" where
  "rfind s sub = rfind_aux s sub 0 (- 1)"

text \<open>
  \<open>str.isspace\<close> on one code point: the code points Python treats as whitespace
  (bidirectional class WS, B or S, or category Zs), which \<open>str.strip()\<close> removes.
\<close>

definition is_space :: "nat \<Rightarrow> bool" where
  "is_space c \<longleftrightarrow>
     (9 \<le> c \<and> c \<le> 13) \<or> (28 \<le> c \<and> c \<le> 32) \<or> c = 133 \<or> c = 160 \<or> c = 5760 \<or>
     (8192 \<le> c \<and> c \<le> 8202) \<or> c = 8232 \<or> c = 8233 \<or> c = 8239 \<or> c = 8287 \<or> c = 12288"

definition strip :: "ustring \<Rightarrow> ustring" where
  "strip s = rev (dropWhile is_space (rev (dropWhile is_space s)))"

section \<open>The chunker (document\_processor.py, chunk\_text)\<close>

text \<open>
  The boundary markers in the order the source tries them:
  \<open>'. '\<close>, U+3002, U+FF01, U+061F and \<open>'\n\n'\<close>.
\<close>

definition puncts :: "ustring list" where
  "puncts = [[46, 32], [12290], [65281], [1567], [10, 10]]"

text \<open>
  The inner \<open>for punct in [...]\<close> loop with its \<open>break\<close>: the first marker found in
  \<open>text[start:end]\<close> moves \<open>end\<close> to just after its last occurrence; when none is found
  \<open>end\<close> stays.
\<close>

fun find_boundary :: "ustring \<Rightarrow> int \<Rightarrow> int \<Rightarrow> ustring list \<Rightarrow> int" where
  "find_boundary text start end [] = end"
| "find_boundary text start end (punct # ps) =
     (let last_punct = rfind (py_slice text start end) punct
      in if last_punct \<noteq> - 1 then start + last_punct + int (length punct)
         else find_boundary text start end ps)"

text \<open>
  The \<open>while start < text_length\<close> loop. Nothing in the source bounds the number of
  iterations, so the loop is a partial function: \<open>None\<close> is a run that never leaves the loop.
\<close>

partial_function (option) chunk_loop ::
  "ustring \<Rightarrow> int \<Rightarrow> int \<Rightarrow> int \<Rightarrow> ustring list \<Rightarrow> ustring list option" where
  "chunk_loop text chunk_size overlap start chunks =
     (if start < int (length text) then
        (let end0 = start + chunk_size;
             end1 = (if end0 < int (length text) then find_boundary text start end0 puncts
                     else end0);
             chunk = strip (py_slice text start end1)
         in chunk_loop text chunk_size overlap (end1 - overlap)
              (if chunk \<noteq> [] then chunks @ [chunk] else chunks))
      else Some chunks)"

declare chunk_loop.simps [code]

definition chunk_text :: "ustring \<Rightarrow> int \<Rightarrow> int \<Rightarrow> ustring list option" where
  "chunk_text text chunk_size overlap =
     (if text = [] then Some [] else chunk_loop text chunk_size overlap 0 [])"


text \<open>
  The premise "the text contains no boundary marker": no marker is a contiguous part of it.
\<close>

definition no_marker :: "ustring \<Rightarrow> bool" where
  "no_marker text = list_all (\<lambda>p. \<not> sublist p text) puncts"

section \<open>Extraction results\<close>

text \<open>
  Document text is a \<open>ustring\<close>, since the chunker counts its characters. File names, paths,
  type tags, status values, identifiers and exception messages are only compared or passed on,
  and are plain strings. \<open>ustr\<close> reads an ASCII literal as text.
\<close>

definition ustr :: "string \<Rightarrow> ustring" where
  "ustr s = map of_char s"

text \<open>\<open>sep.join(xs)\<close>.\<close>

fun join :: "'a list \<Rightarrow> 'a list list \<Rightarrow> 'a list" where
  "join sep [] = []"
| "join sep [x] = x"
| "join sep (x # y # ys) = x @ sep @ join sep (y # ys)"

text \<open>Decimal formatting of a number inside an f-string.\<close>

fun show_nat :: "nat \<Rightarrow> string" where
  "show_nat n =
     (if n < 10 then [''0123456789'' ! n]
      else show_nat (n div 10) @ [''0123456789'' ! (n mod 10)])"

declare show_nat.simps [simp del]

text \<open>
  The entries of the \<open>pages\<close> list, one constructor per shape of dictionary the extractors
  build: a PDF page (\<open>page_number\<close>, \<open>text\<close>, \<open>char_count\<close>), a Word paragraph (\<open>text\<close>,
  \<open>style\<close>), a sheet (\<open>sheet_name\<close>, \<open>text\<close>, \<open>data\<close>) and an image (\<open>size\<close>, \<open>format\<close>,
  \<open>mode\<close> and, with OCR, \<open>ocr_text\<close>). The last field of an image entry is \<open>None\<close> when
  the key \<open>ocr_text\<close> is absent, and otherwise holds its value, which is the answer of the
  vision model: a string, or Python's \<open>None\<close>.
\<close>

datatype page_rec =
    PdfPage nat ustring nat
  | Paragraph ustring string
  | Sheet string ustring "ustring list list"
  | ImagePage "nat \<times> nat" string string "ustring option option"

text \<open>
  The \<open>metadata\<close> dictionary: empty, or that of a PDF (\<open>num_pages\<close>, \<open>method\<close>, and
  \<open>ocr_pages\<close> on the OCR path), a Word document (\<open>num_paragraphs\<close>, \<open>num_tables\<close>,
  \<open>tables\<close>), a workbook (\<open>num_sheets\<close>, \<open>sheet_names\<close>) or an image (\<open>width\<close>, \<open>height\<close>,
  \<open>format\<close>, and \<open>method\<close> with OCR).
\<close>

datatype metadata =
    NoMeta
  | PdfMeta nat string "nat option"
  | DocxMeta nat nat "ustring list list list"
  | XlsxMeta nat "string list"
  | ImageMeta nat nat string "string option"

text \<open>
  The dictionary an extractor returns. The value of \<open>text\<close> is a string, or Python's \<open>None\<close>
  when it is the answer of a vision model that carries no content. The keys \<open>status\<close> and
  \<open>error\<close> are absent from some of the dictionaries, hence optional.
\<close>

record extraction =
  ex_text :: "ustring option"
  ex_pages :: "page_rec list"
  ex_metadata :: metadata
  ex_status :: "string option"
  ex_error :: "string option"

section \<open>The OCR processor (ocr\_processor.py)\<close>

text \<open>
  What the libraries behind the OCR processor answer; \<open>Inl\<close> carries the message of a raised
  exception. \<open>fitz_open\<close> is \<open>fitz.open(path)\<close> with the page count of the opened document;
  \<open>vision_file\<close> is \<open>encode_image\<close> followed by the chat-completion call on an image file;
  \<open>vision_page\<close> is the rendering of one PDF page to a temporary image followed by the same
  call on it. The answer of the call is \<open>response.choices[0].message.content\<close>, which the
  service may leave empty: \<open>Inr None\<close> is an answer without content (Python's \<open>None\<close>),
  \<open>Inr (Some t)\<close> an answer with the text \<open>t\<close>.
\<close>

record ocr_processor =
  fitz_open :: "string \<Rightarrow> string + nat"
  vision_file :: "string \<Rightarrow> string + ustring option"
  vision_page :: "string \<Rightarrow> nat \<Rightarrow> string + ustring option"

text \<open>
  The dictionary of one transcription. Its \<open>text\<close> is the answer as it came, also with status
  \<open>success\<close>; the error results carry the empty string.
\<close>

record ocr_result =
  or_text :: "ustring option"
  or_status :: string
  or_error :: "string option"

text \<open>\<open>OCRProcessor.process_image\<close>: every exception becomes a result with status \<open>error\<close>.\<close>

definition ocr_process_image :: "ocr_processor \<Rightarrow> string \<Rightarrow> ocr_result" where
  "ocr_process_image ocr image_path =
     (case vision_file ocr image_path of
        Inr extracted_text \<Rightarrow>
          \<lparr>or_text = extracted_text, or_status = ''success'', or_error = None\<rparr>
      | Inl e \<Rightarrow> \<lparr>or_text = Some [], or_status = ''error'', or_error = Some e\<rparr>)"

text \<open>\<open>OCRProcessor.process_pdf_page_as_image\<close>.\<close>

definition process_pdf_page_as_image :: "ocr_processor \<Rightarrow> string \<Rightarrow> nat \<Rightarrow> ocr_result" where
  "process_pdf_page_as_image ocr pdf_path page_num =
     (case fitz_open ocr pdf_path of
        Inl e \<Rightarrow> \<lparr>or_text = Some [], or_status = ''error'', or_error = Some e\<rparr>
      | Inr doc_len \<Rightarrow>
          if page_num \<ge> doc_len then
            \<lparr>or_text = Some [], or_status = ''error'',
             or_error = Some (''Page '' @ show_nat page_num @ '' does not exist'')\<rparr>
          else
            (case vision_page ocr pdf_path page_num of
               Inr extracted_text \<Rightarrow>
                 \<lparr>or_text = extracted_text, or_status = ''success'', or_error = None\<rparr>
             | Inl e \<Rightarrow> \<lparr>or_text = Some [], or_status = ''error'', or_error = Some e\<rparr>))"

record scanned_result =
  sr_text :: ustring
  sr_pages :: "page_rec list"
  sr_status :: string
  sr_error :: "string option"
  sr_num_pages :: "nat option"

text \<open>
  The page loop of \<open>process_scanned_pdf\<close>: \<open>all_text\<close> and \<open>pages_data\<close> grow only for a page
  whose result has status \<open>success\<close>. For such a page the entry of \<open>pages_data\<close> is built
  first, with \<open>len(result['text'])\<close>, which raises a \<open>TypeError\<close> when the text is \<open>None\<close>; the
  loop is left with this exception (\<open>Inl\<close>, with its message).
\<close>

fun scan_pages ::
  "ocr_processor \<Rightarrow> string \<Rightarrow> nat list \<Rightarrow> ustring list \<Rightarrow> page_rec list \<Rightarrow>
   string + ustring list \<times> page_rec list" where
  "scan_pages ocr pdf_path [] all_text pages_data = Inr (all_text, pages_data)"
| "scan_pages ocr pdf_path (page_num # rest) all_text pages_data =
     (let result = process_pdf_page_as_image ocr pdf_path page_num
      in if or_status result = ''success'' then
           (case or_text result of
              None \<Rightarrow> Inl (''object of type '' @ [CHR 0x27] @ ''NoneType'' @ [CHR 0x27] @ '' has no len()'')
            | Some page_text \<Rightarrow>
                scan_pages ocr pdf_path rest
                  (all_text @
                     [ustr (''[Page '' @ show_nat (page_num + 1) @ '']'') @ [10] @ page_text])
                  (pages_data @ [PdfPage (page_num + 1) page_text (length page_text)]))
         else scan_pages ocr pdf_path rest all_text pages_data)"

text \<open>
  \<open>OCRProcessor.process_scanned_pdf\<close>: an exception of \<open>fitz.open\<close> or of the page loop is
  caught and gives a result with status \<open>error\<close>.
\<close>

definition process_scanned_pdf :: "ocr_processor \<Rightarrow> string \<Rightarrow> nat \<Rightarrow> scanned_result" where
  "process_scanned_pdf ocr pdf_path max_pages =
     (case fitz_open ocr pdf_path of
        Inl e \<Rightarrow>
          \<lparr>sr_text = [], sr_pages = [], sr_status = ''error'', sr_error = Some e,
           sr_num_pages = None\<rparr>
      | Inr doc_len \<Rightarrow>
          (let num_pages = min doc_len max_pages
           in case scan_pages ocr pdf_path [0..<num_pages] [] [] of
                Inl e \<Rightarrow>
                  \<lparr>sr_text = [], sr_pages = [], sr_status = ''error'', sr_error = Some e,
                   sr_num_pages = None\<rparr>
              | Inr (all_text, pages_data) \<Rightarrow>
                  \<lparr>sr_text = join [10, 10] all_text, sr_pages = pages_data,
                   sr_status = ''success'', sr_error = None, sr_num_pages = Some num_pages\<rparr>))"

section \<open>The format extractors (document\_processor.py)\<close>

text \<open>
  What the parsing libraries answer for a path; \<open>Inl\<close> carries the message of a raised
  exception. \<open>pdf_reader\<close> is \<open>open\<close> with \<open>PyPDF2.PdfReader\<close>: the pages of the file, each
  with the outcome of its \<open>extract_text()\<close>. \<open>docx_document\<close> is \<open>Document(path)\<close>: the
  paragraphs (text and style name) and the tables (rows of cell texts). \<open>load_workbook\<close> gives
  the sheets in order, each with its name and its rows of cells, a cell being \<open>None\<close> or the
  \<open>str\<close> of its value. \<open>image_open\<close> is \<open>Image.open(path)\<close>.
\<close>

record docx =
  paragraphs :: "(ustring \<times> string) list"
  tables :: "ustring list list list"

record image_info =
  img_width :: nat
  img_height :: nat
  img_format :: string
  img_mode :: string

record libs =
  pdf_reader :: "string \<Rightarrow> string + (string + ustring) list"
  docx_document :: "string \<Rightarrow> string + docx"
  load_workbook :: "string \<Rightarrow> string + (string \<times> ustring option list list) list"
  image_open :: "string \<Rightarrow> string + image_info"

text \<open>
  The page loop of \<open>process_pdf\<close>. \<open>pages\<close>, \<open>full_text\<close> and \<open>total_text_length\<close> are
  updated page by page; an exception of \<open>extract_text\<close> leaves the loop with what was
  collected before it, and is reported in the first component.
\<close>

fun read_pages ::
  "(string + ustring) list \<Rightarrow> nat \<Rightarrow> page_rec list \<Rightarrow> ustring list \<Rightarrow> nat \<Rightarrow>
   string option \<times> page_rec list \<times> ustring list \<times> nat" where
  "read_pages [] page_num pages full_text total_text_length =
     (None, pages, full_text, total_text_length)"
| "read_pages (Inl e # rest) page_num pages full_text total_text_length =
     (Some e, pages, full_text, total_text_length)"
| "read_pages (Inr text # rest) page_num pages full_text total_text_length =
     read_pages rest (page_num + 1)
       (pages @ [PdfPage (page_num + 1) text (length text)])
       (full_text @ [text])
       (total_text_length + length (strip text))"

text \<open>
  \<open>avg_chars_per_page < 30\<close>, where the average is \<open>total_text_length / num_pages\<close> and \<open>0\<close>
  for a file without pages. The quotient of the source is a float; below \<open>30\<close> it is exactly
  when the total is below \<open>30 * num_pages\<close> (for every page count a file can have).
\<close>

definition looks_scanned :: "nat \<Rightarrow> nat \<Rightarrow> bool" where
  "looks_scanned total_text_length num_pages =
     (if num_pages > 0 then total_text_length < 30 * num_pages else True)"

text \<open>The final \<open>return\<close> of \<open>process_pdf\<close>: the text extracted directly.\<close>

definition text_extraction_result :: "page_rec list \<Rightarrow> ustring list \<Rightarrow> extraction" where
  "text_extraction_result pages full_text =
     \<lparr>ex_text = Some (join [10, 10] full_text), ex_pages = pages,
      ex_metadata = PdfMeta (length pages) ''text_extraction'' None,
      ex_status = None, ex_error = None\<rparr>"

text \<open>
  \<open>DocumentProcessor.process_pdf\<close>. Its \<open>try\<close> block catches every exception and goes on to
  the final \<open>return\<close>, so the function returns a dictionary on every path.
\<close>

definition process_pdf :: "libs \<Rightarrow> ocr_processor option \<Rightarrow> string \<Rightarrow> extraction" where
  "process_pdf lb ocr file_path =
     (case pdf_reader lb file_path of
        Inl e \<Rightarrow> text_extraction_result [] []
      | Inr pdf_pages \<Rightarrow>
          (case read_pages pdf_pages 0 [] [] 0 of
             (Some e, pages, full_text, total_text_length) \<Rightarrow>
               text_extraction_result pages full_text
           | (None, pages, full_text, total_text_length) \<Rightarrow>
               (let num_pages = length pdf_pages in
                case ocr of
                  None \<Rightarrow> text_extraction_result pages full_text
                | Some oc \<Rightarrow>
                    if looks_scanned total_text_length num_pages then
                      (let ocr_result = process_scanned_pdf oc file_path (min num_pages 20)
                       in if sr_status ocr_result = ''success'' then
                            \<lparr>ex_text = Some (sr_text ocr_result),
                             ex_pages = sr_pages ocr_result,
                             ex_metadata =
                               PdfMeta num_pages ''ocr'' (Some (length (sr_pages ocr_result))),
                             ex_status = None, ex_error = None\<rparr>
                          else text_extraction_result pages full_text)
                    else text_extraction_result pages full_text)))"

text \<open>\<open>DocumentProcessor.process_docx\<close>: an exception of the library is not caught here.\<close>

definition process_docx :: "libs \<Rightarrow> string \<Rightarrow> string + extraction" where
  "process_docx lb file_path =
     (case docx_document lb file_path of
        Inl e \<Rightarrow> Inl e
      | Inr doc \<Rightarrow>
          (let kept = filter (\<lambda>(text, style). strip text \<noteq> []) (paragraphs doc)
           in Inr \<lparr>ex_text = Some (join [10, 10] (map fst kept)),
                   ex_pages = map (\<lambda>(text, style). Paragraph text style) kept,
                   ex_metadata = DocxMeta (length kept) (length (tables doc)) (tables doc),
                   ex_status = None, ex_error = None\<rparr>))"

text \<open>
  \<open>DocumentProcessor.process_xlsx\<close>. A row's text joins its non-empty cells with \<open>' | '\<close>;
  a sheet keeps the non-empty row texts.
\<close>

definition row_data_of :: "ustring option list \<Rightarrow> ustring list" where
  "row_data_of row = map (\<lambda>cell. case cell of None \<Rightarrow> [] | Some v \<Rightarrow> v) row"

definition sheet_text_of :: "ustring option list list \<Rightarrow> ustring list" where
  "sheet_text_of rows =
     filter (\<lambda>row_text. row_text \<noteq> [])
       (map (\<lambda>row. join [32, 124, 32] (filter (\<lambda>cell. cell \<noteq> []) (row_data_of row))) rows)"

definition process_xlsx :: "libs \<Rightarrow> string \<Rightarrow> string + extraction" where
  "process_xlsx lb file_path =
     (case load_workbook lb file_path of
        Inl e \<Rightarrow> Inl e
      | Inr sheets \<Rightarrow>
          (let sheets_data =
                 map (\<lambda>(sheet_name, rows).
                        Sheet sheet_name (join [10] (sheet_text_of rows)) (map row_data_of rows))
                     sheets;
               full_text = concat (map (\<lambda>(sheet_name, rows). sheet_text_of rows) sheets)
           in Inr \<lparr>ex_text = Some (join [10, 10] full_text), ex_pages = sheets_data,
                   ex_metadata = XlsxMeta (length sheets_data) (map fst sheets),
                   ex_status = None, ex_error = None\<rparr>))"

text \<open>
  \<open>DocumentProcessor.process_image\<close>. Its \<open>except\<close> branch returns a dictionary with the key
  \<open>error\<close> and without \<open>status\<close>.
\<close>

definition process_image :: "libs \<Rightarrow> ocr_processor option \<Rightarrow> string \<Rightarrow> extraction" where
  "process_image lb ocr file_path =
     (case image_open lb file_path of
        Inl e \<Rightarrow>
          \<lparr>ex_text = Some [], ex_pages = [], ex_metadata = NoMeta, ex_status = None,
           ex_error = Some e\<rparr>
      | Inr img \<Rightarrow>
          (let fallback =
                 \<lparr>ex_text = Some (ustr ''[Image file - OCR not available]''),
                  ex_pages =
                    [ImagePage (img_width img, img_height img) (img_format img) (img_mode img)
                       None],
                  ex_metadata = ImageMeta (img_width img) (img_height img) (img_format img) None,
                  ex_status = None, ex_error = None\<rparr>
           in case ocr of
                None \<Rightarrow> fallback
              | Some oc \<Rightarrow>
                  (let ocr_result = ocr_process_image oc file_path
                   in if or_status ocr_result = ''success'' then
                        \<lparr>ex_text = or_text ocr_result,
                         ex_pages =
                           [ImagePage (img_width img, img_height img) (img_format img)
                              (img_mode img) (Some (or_text ocr_result))],
                         ex_metadata =
                           ImageMeta (img_width img) (img_height img) (img_format img)
                             (Some ''gpt4_vision_ocr''),
                         ex_status = None, ex_error = None\<rparr>
                      else fallback)))"

text \<open>
  The table \<open>supported_types\<close>: the extractor of a type tag, as the call \<open>processor(file_path)\<close>
  sees it (\<open>Inl\<close>: the call raises).
\<close>

definition supported_types ::
  "string \<Rightarrow> (libs \<Rightarrow> ocr_processor option \<Rightarrow> string \<Rightarrow> string + extraction) option" where
  "supported_types file_type =
     (if file_type = ''application/pdf'' then
        Some (\<lambda>lb ocr file_path. Inr (process_pdf lb ocr file_path))
      else if file_type =
          ''application/vnd.openxmlformats-officedocument.wordprocessingml.document'' then
        Some (\<lambda>lb ocr file_path. process_docx lb file_path)
      else if file_type =
          ''application/vnd.openxmlformats-officedocument.spreadsheetml.sheet'' then
        Some (\<lambda>lb ocr file_path. process_xlsx lb file_path)
      else if file_type = ''image/png'' \<or> file_type = ''image/jpeg'' \<or> file_type = ''image/jpg''
        then Some (\<lambda>lb ocr file_path. Inr (process_image lb ocr file_path))
      else None)"

text \<open>\<open>DocumentProcessor.process_file\<close>.\<close>

definition process_file :: "libs \<Rightarrow> ocr_processor option \<Rightarrow> string \<Rightarrow> string \<Rightarrow> extraction" where
  "process_file lb ocr file_path file_type =
     (case supported_types file_type of
        None \<Rightarrow>
          \<lparr>ex_text = Some [], ex_pages = [], ex_metadata = NoMeta,
           ex_status = Some ''unsupported_type'',
           ex_error = Some (''Unsupported file type: '' @ file_type)\<rparr>
      | Some processor \<Rightarrow>
          (case processor lb ocr file_path of
             Inr result \<Rightarrow> result\<lparr>ex_status := Some ''success''\<rparr>
           | Inl e \<Rightarrow>
               \<lparr>ex_text = Some [], ex_pages = [], ex_metadata = NoMeta,
                ex_status = Some ''error'', ex_error = Some e\<rparr>))"

section \<open>Uploads (app.py)\<close>

type_synonym bytes = "8 word list"

text \<open>
  The uploaded file object: its name, its type tag, and what \<open>read()\<close> gives (\<open>Inl\<close>: it
  raises).
\<close>

record uploaded_file =
  uf_name :: string
  uf_type :: string
  uf_read :: "string + bytes"

text \<open>The dictionary \<open>doc_info\<close>.\<close>

record doc_info =
  di_name :: string
  di_path :: string
  di_hash :: string
  di_size :: nat
  di_uploaded_at :: string
  di_status :: string
  di_type :: string

text \<open>
  The state \<open>save_uploaded_file\<close> can see or change: the tracked documents
  (\<open>st.session_state.documents\<close>) and the files on disk.
\<close>

record session =
  documents :: "doc_info list"
  disk :: "string \<rightharpoonup> bytes"

text \<open>The duplicate check: the \<open>for doc in st.session_state.documents\<close> loop.\<close>

fun is_duplicate :: "doc_info list \<Rightarrow> string \<Rightarrow> bool" where
  "is_duplicate [] file_hash = False"
| "is_duplicate (doc # docs) file_hash =
     (if di_hash doc = file_hash then True else is_duplicate docs file_hash)"

text \<open>
  \<open>save_uploaded_file\<close>, returning the pair of the source together with the state after the
  call. The parameters stand for the library calls: \<open>sha256_hex\<close> is
  \<open>hashlib.sha256(...).hexdigest()\<close>, \<open>write_file\<close> is \<open>open(path, 'wb')\<close> with \<open>f.write\<close>
  (the disk afterwards, and the message of an exception if one was raised), \<open>now\<close> is
  \<open>datetime.now().isoformat()\<close>, and \<open>data_path\<close> is the \<open>pathlib\<close> join
  \<open>DATA_DIR / uploaded_file.name\<close>, read as a string.
\<close>

definition save_uploaded_file ::
  "(bytes \<Rightarrow> string) \<Rightarrow> (string \<Rightarrow> string) \<Rightarrow>
   ((string \<rightharpoonup> bytes) \<Rightarrow> string \<Rightarrow> bytes \<Rightarrow> (string \<rightharpoonup> bytes) \<times> string option) \<Rightarrow>
   string \<Rightarrow> session \<Rightarrow> uploaded_file \<Rightarrow> (doc_info option \<times> string option) \<times> session" where
  "save_uploaded_file sha256_hex data_path write_file now st uploaded =
     (case uf_read uploaded of
        Inl e \<Rightarrow> ((None, Some e), st)
      | Inr file_bytes \<Rightarrow>
          (let file_hash = sha256_hex file_bytes in
           if is_duplicate (documents st) file_hash then
             ((None, Some ''Duplicate file detected''), st)
           else
             (let file_path = data_path (uf_name uploaded)
              in case write_file (disk st) file_path file_bytes of
                   (disk', Some e) \<Rightarrow> ((None, Some e), st\<lparr>disk := disk'\<rparr>)
                 | (disk', None) \<Rightarrow>
                     ((Some \<lparr>di_name = uf_name uploaded, di_path = file_path,
                              di_hash = file_hash, di_size = length file_bytes,
                              di_uploaded_at = now, di_status = ''uploaded'',
                              di_type = uf_type uploaded\<rparr>,
                       None),
                      st\<lparr>disk := disk'\<rparr>))))"

section \<open>The vector store (vector\_store.py)\<close>

text \<open>
  \<open>VectorStore.get_embedding\<close>. \<open>create_embedding\<close> is the call of the embedding service
  with the extraction of \<open>response.data[0].embedding\<close> (\<open>Inl\<close>: it raises); a failure becomes
  the empty vector.
\<close>

definition get_embedding :: "(ustring \<Rightarrow> string + 'v list) \<Rightarrow> ustring \<Rightarrow> 'v list" where
  "get_embedding create_embedding text =
     (case create_embedding text of Inr embedding \<Rightarrow> embedding | Inl e \<Rightarrow> [])"

text \<open>
  \<open>VectorStore.add_documents\<close>, returning the flag of the source and the collection after
  the call. The list comprehension calls the embedding service once per chunk, in order, and
  each call may succeed or fail on its own: \<open>create_embedding k\<close> is the service as it answers
  the call for position \<open>k\<close>. \<open>collection_add\<close> is
  \<open>self.collection.add(documents, embeddings, metadatas, ids)\<close> of the store: the collection
  afterwards, and the message of an exception if one was raised.
\<close>

definition add_documents ::
  "(nat \<Rightarrow> ustring \<Rightarrow> string + 'v list) \<Rightarrow>
   ('c \<Rightarrow> ustring list \<Rightarrow> 'v list list \<Rightarrow> 'm list \<Rightarrow> string list \<Rightarrow> 'c \<times> string option) \<Rightarrow>
   'c \<Rightarrow> ustring list \<Rightarrow> 'm list \<Rightarrow> string list \<Rightarrow> bool \<times> 'c" where
  "add_documents create_embedding collection_add collection chunks metadatas ids =
     (let embeddings =
            map (\<lambda>(k, chunk). get_embedding (create_embedding k) chunk) (enumerate 0 chunks);
          valid_data =
            filter (\<lambda>(chunk, emb, meta, cid). emb \<noteq> [])
              (zip chunks (zip embeddings (zip metadatas ids)))
      in if valid_data = [] then (False, collection)
         else
           (case collection_add collection
                   (map (\<lambda>(chunk, emb, meta, cid). chunk) valid_data)
                   (map (\<lambda>(chunk, emb, meta, cid). emb) valid_data)
                   (map (\<lambda>(chunk, emb, meta, cid). meta) valid_data)
                   (map (\<lambda>(chunk, emb, meta, cid). cid) valid_data) of
              (collection', None) \<Rightarrow> (True, collection')
            | (collection', Some e) \<Rightarrow> (False, collection')))"

text \<open>
  The answer of \<open>self.collection.query\<close>: per query, the lists of documents, metadata and
  distances. A value \<open>None\<close> of the store and an empty list are both false in the tests of
  \<open>search\<close>, and are the empty list here.
\<close>

record ('m, 'd) query_results =
  qr_documents :: "ustring list list"
  qr_metadatas :: "'m list list"
  qr_distances :: "'d list list"

record ('m, 'd) search_result =
  res_documents :: "ustring list"
  res_metadatas :: "'m list"
  res_distances :: "'d list"

definition empty_result :: "('m, 'd) search_result" where
  "empty_result = \<lparr>res_documents = [], res_metadatas = [], res_distances = []\<rparr>"

text \<open>\<open>xs[0] if xs else []\<close>.\<close>

definition first_or_empty :: "'a list list \<Rightarrow> 'a list" where
  "first_or_empty xs = (case xs of [] \<Rightarrow> [] | x # _ \<Rightarrow> x)"

text \<open>
  The body of the \<open>try\<close> block of \<open>VectorStore.search\<close>: \<open>Inl\<close> is an exception raised
  inside it, \<open>Inr\<close> the value of a \<open>return\<close>. \<open>collection_query\<close> is
  \<open>self.collection.query(query_embeddings, n_results, where)\<close>.
\<close>

definition search_body ::
  "(ustring \<Rightarrow> string + 'v list) \<Rightarrow>
   ('v list list \<Rightarrow> int \<Rightarrow> 'f option \<Rightarrow> string + ('m, 'd) query_results) \<Rightarrow>
   ustring \<Rightarrow> int \<Rightarrow> 'f option \<Rightarrow> string + ('m, 'd) search_result" where
  "search_body create_embedding collection_query query n_results filter_dict =
     (let query_embedding = get_embedding create_embedding query in
      if query_embedding = [] then Inr empty_result
      else
        (case collection_query [query_embedding] n_results filter_dict of
           Inl e \<Rightarrow> Inl e
         | Inr results \<Rightarrow>
             Inr \<lparr>res_documents = first_or_empty (qr_documents results),
                  res_metadatas = first_or_empty (qr_metadatas results),
                  res_distances = first_or_empty (qr_distances results)\<rparr>))"

text \<open>\<open>VectorStore.search\<close>: the \<open>except\<close> branch turns an exception into the empty result.\<close>

definition search ::
  "(ustring \<Rightarrow> string + 'v list) \<Rightarrow>
   ('v list list \<Rightarrow> int \<Rightarrow> 'f option \<Rightarrow> string + ('m, 'd) query_results) \<Rightarrow>
   ustring \<Rightarrow> int \<Rightarrow> 'f option \<Rightarrow> ('m, 'd) search_result" where
  "search create_embedding collection_query query n_results filter_dict =
     (case search_body create_embedding collection_query query n_results filter_dict of
        Inr result \<Rightarrow> result
      | Inl e \<Rightarrow> empty_result)"

text \<open>
  \<open>VectorStore.delete_document\<close>, returning the flag of the source and the collection after
  the call. \<open>collection_get\<close> is \<open>self.collection.get(where={"document_name": ...})['ids']\<close>
  (\<open>Inl\<close>: it raises), \<open>collection_delete\<close> is \<open>self.collection.delete(ids=...)\<close>: the
  collection afterwards, and the message of an exception if one was raised.
\<close>

definition delete_document ::
  "('c \<Rightarrow> string \<Rightarrow> string + string list) \<Rightarrow> ('c \<Rightarrow> string list \<Rightarrow> 'c \<times> string option) \<Rightarrow>
   'c \<Rightarrow> string \<Rightarrow> bool \<times> 'c" where
  "delete_document collection_get collection_delete collection document_name =
     (case collection_get collection document_name of
        Inl e \<Rightarrow> (False, collection)
      | Inr result_ids \<Rightarrow>
          if result_ids \<noteq> [] then
            (case collection_delete collection result_ids of
               (collection', None) \<Rightarrow> (True, collection')
             | (collection', Some e) \<Rightarrow> (False, collection'))
          else (False, collection))"

text \<open>The metadata the application stores with a chunk (app.py, \<open>process_document\<close>).\<close>

record chunk_metadata =
  md_document_name :: string
  md_chunk_id :: nat
  md_page :: nat
  md_uploaded_at :: string

text \<open>
  The vector store itself is an external service: the source only calls it. A collection is
  the list of its records, each an id with the chunk text, the embedding and the metadata; ids
  are keys, so a collection has distinct ids.
\<close>

type_synonym 'v store = "(string \<times> ustring \<times> 'v list \<times> chunk_metadata) list"

text \<open>
  Modelled from the spec: \<open>get(filter)\<close> of the vector store, which is not part of the
  source. After section 6 of the specification it returns the matching records, the filter
  being an exact match on a metadata field, here \<open>document_name\<close>; the source reads their ids.
\<close>

definition store_get :: "'v store \<Rightarrow> string \<Rightarrow> string + string list" where
  "store_get collection document_name =
     Inr (map fst
            (filter (\<lambda>(cid, doc, emb, meta). md_document_name meta = document_name) collection))"

text \<open>
  Modelled from the spec: \<open>delete(ids)\<close> of the vector store, which is not part of the
  source. After section 6 of the specification it removes the records with the given ids.
\<close>

definition store_delete :: "'v store \<Rightarrow> string list \<Rightarrow> 'v store \<times> string option" where
  "store_delete collection del_ids =
     (filter (\<lambda>(cid, doc, emb, meta). cid \<notin> set del_ids) collection, None)"

text \<open>
  \<open>add(ids, embeddings, metadatas, documents)\<close> of the vector store, the call the source
  makes. It refuses a batch in which an id occurs twice, with an exception. Otherwise it stores
  the rows whose id the collection does not hold yet; for an id the collection already holds
  the stored record stays as it is and the new row is dropped, without an exception. The
  checks of the store on the vectors themselves are left out: an exception of the call, for
  whatever reason, is covered by the parameter \<open>collection_add\<close> of \<open>add_documents\<close>.
\<close>

definition store_add ::
  "'v store \<Rightarrow> ustring list \<Rightarrow> 'v list list \<Rightarrow> chunk_metadata list \<Rightarrow> string list \<Rightarrow>
   'v store \<times> string option" where
  "store_add collection docs embs metas new_ids =
     (if \<not> distinct new_ids then (collection, Some ''Expected IDs to be unique'')
      else
        (collection @
           filter (\<lambda>(cid, doc, emb, meta). cid \<notin> fst ` set collection)
             (zip new_ids (zip docs (zip embs metas))),
         None))"

text \<open>
  Modelled from the spec: one row of \<open>upsert(ids, vectors, documents, metadatas)\<close> of the
  vector store, which is not part of the source and which the source never calls. After
  sections 4.5 and 6 of the specification the rows are stored keyed by id: a row replaces the
  record of its id, or is added when the collection has no record of this id.
\<close>

fun upsert_row ::
  "string \<times> ustring \<times> 'v list \<times> chunk_metadata \<Rightarrow> 'v store \<Rightarrow> 'v store" where
  "upsert_row row [] = [row]"
| "upsert_row row (r # rs) = (if fst r = fst row then row # rs else r # upsert_row row rs)"

text \<open>
  Modelled from the spec: the whole \<open>upsert\<close> call, which stores its rows one after the
  other and does not raise.
\<close>

definition store_upsert ::
  "'v store \<Rightarrow> ustring list \<Rightarrow> 'v list list \<Rightarrow> chunk_metadata list \<Rightarrow> string list \<Rightarrow>
   'v store \<times> string option" where
  "store_upsert collection docs embs metas new_ids =
     (foldl (\<lambda>c row. upsert_row row c) collection (zip new_ids (zip docs (zip embs metas))),
      None)"

section \<open>Properties of the chunker\<close>

subsection \<open>Slices\<close>

lemma py_slice_nonneg:
  "0 \<le> i \<Longrightarrow> 0 \<le> j \<Longrightarrow> py_slice s i j = take (nat j - nat i) (drop (nat i) s)"
  by (auto simp: py_slice_def slice_index_def Let_def)

lemma py_slice_wrapped_empty:
  "i < 0 \<Longrightarrow> 0 \<le> j \<Longrightarrow> j \<le> i + int (length s) \<Longrightarrow> py_slice s i j = []"
  by (auto simp: py_slice_def slice_index_def Let_def)

lemma sublist_py_slice: "sublist (py_slice s i j) s"
proof -
  have "sublist (take n (drop m s)) (drop m s)" for n m by simp
  then have "sublist (take n (drop m s)) s" for n m
    using sublist_drop sublist_order.order_trans by blast
  then show ?thesis by (simp add: py_slice_def Let_def)
qed

subsection \<open>rfind\<close>

lemma prefix_drop_sublist: "prefix sub (drop k s) \<Longrightarrow> sublist sub s"
  by (meson prefix_imp_sublist sublist_drop sublist_order.order_trans)

lemma rfind_aux_none:
  "\<forall>k. \<not> prefix sub (drop k s) \<Longrightarrow> rfind_aux s sub i acc = acc"
proof (induction s arbitrary: i acc)
  case Nil
  then show ?case by auto
next
  case (Cons x xs)
  have a: "\<not> prefix sub (x # xs)" using Cons.prems[rule_format, of 0] by simp
  have b: "\<forall>k. \<not> prefix sub (drop k xs)"
  proof
    fix k show "\<not> prefix sub (drop k xs)" using Cons.prems[rule_format, of "Suc k"] by simp
  qed
  show ?case using a Cons.IH[OF b] by simp
qed

lemma rfind_absent: "\<not> sublist sub s \<Longrightarrow> rfind s sub = - 1"
  unfolding rfind_def by (rule rfind_aux_none) (blast dest: prefix_drop_sublist)

lemma rfind_aux_last:
  "prefix sub (drop k s) \<Longrightarrow> k \<le> length s \<Longrightarrow>
   (\<forall>j. k < j \<longrightarrow> j \<le> length s \<longrightarrow> \<not> prefix sub (drop j s)) \<Longrightarrow>
   rfind_aux s sub i acc = int (i + k)"
proof (induction s arbitrary: k i acc)
  case Nil
  then show ?case by auto
next
  case (Cons x xs)
  show ?case
  proof (cases k)
    case 0
    have "\<forall>j. \<not> prefix sub (drop j xs)"
    proof
      fix j
      show "\<not> prefix sub (drop j xs)"
      proof (cases "j \<le> length xs")
        case True
        then show ?thesis using Cons.prems(3)[rule_format, of "Suc j"] 0 by simp
      next
        case False
        then have "drop j xs = drop (length xs) xs" by simp
        then show ?thesis using Cons.prems(3)[rule_format, of "Suc (length xs)"] 0 by simp
      qed
    qed
    then have "rfind_aux xs sub (Suc i) (int i) = int i" by (rule rfind_aux_none)
    then show ?thesis using Cons.prems(1) 0 by simp
  next
    case (Suc k')
    have p: "prefix sub (drop k' xs)" using Cons.prems(1) Suc by simp
    have l: "k' \<le> length xs" using Cons.prems(2) Suc by simp
    have n: "\<forall>j. k' < j \<longrightarrow> j \<le> length xs \<longrightarrow> \<not> prefix sub (drop j xs)"
    proof (intro allI impI)
      fix j assume "k' < j" "j \<le> length xs"
      then show "\<not> prefix sub (drop j xs)"
        using Cons.prems(3)[rule_format, of "Suc j"] Suc by simp
    qed
    show ?thesis using Cons.IH[OF p l n] Suc by simp
  qed
qed

lemma rfind_last_hd:
  assumes p: "prefix sub (drop k s)" and k: "k \<le> length s" and ne: "sub \<noteq> []"
    and later: "\<forall>j. k < j \<longrightarrow> j < length s \<longrightarrow> s ! j \<noteq> hd sub"
  shows "rfind s sub = int k"
proof -
  have "\<forall>j. k < j \<longrightarrow> j \<le> length s \<longrightarrow> \<not> prefix sub (drop j s)"
  proof (intro allI impI notI)
    fix j assume j: "k < j" "j \<le> length s" and pj: "prefix sub (drop j s)"
    from pj ne have "drop j s \<noteq> []" by auto
    then have lt: "j < length s" by simp
    from pj ne have "hd (drop j s) = hd sub" by (auto simp: prefix_def)
    then have "s ! j = hd sub" using lt by (simp add: hd_drop_conv_nth)
    then show False using later j(1) lt by blast
  qed
  then show ?thesis
    unfolding rfind_def using rfind_aux_last[OF p k, of 0 "- 1"] by simp
qed

subsection \<open>Boundary search\<close>

lemma find_boundary_absent:
  "\<forall>p \<in> set ps. \<not> sublist p text \<Longrightarrow> find_boundary text start e ps = e"
proof (induction ps)
  case Nil
  then show ?case by simp
next
  case (Cons p ps)
  have "\<not> sublist p (py_slice text start e)"
    using Cons.prems sublist_py_slice sublist_order.order_trans by (metis list.set_intros(1))
  then have "rfind (py_slice text start e) p = - 1" by (rule rfind_absent)
  then show ?case using Cons by simp
qed

lemma find_boundary_first:
  "rfind (py_slice text start e) p = int k \<Longrightarrow>
   find_boundary text start e (p # ps) = start + int k + int (length p)"
  by simp

lemma find_boundary_no_marker:
  "no_marker text \<Longrightarrow> find_boundary text start e puncts = e"
  by (rule find_boundary_absent) (simp add: no_marker_def list_all_iff)

lemma find_boundary_empty_window:
  "py_slice text start e = [] \<Longrightarrow> find_boundary text start e puncts = e"
  by (simp add: puncts_def rfind_def)

subsection \<open>strip\<close>

lemma strip_Nil: "strip [] = []"
  by (simp add: strip_def)

lemma dropWhile_hd: "s \<noteq> [] \<Longrightarrow> \<not> P (hd s) \<Longrightarrow> dropWhile P s = s"
  by (cases s) auto

lemma strip_id:
  assumes "s \<noteq> []" "\<not> is_space (hd s)" "\<not> is_space (last s)"
  shows "strip s = s"
proof -
  have a: "dropWhile is_space s = s" using assms by (simp add: dropWhile_hd)
  have "dropWhile is_space (rev s) = rev s"
    using assms by (intro dropWhile_hd) (simp_all add: hd_rev)
  then show ?thesis by (simp add: strip_def a)
qed

lemma strip_replicate: "\<not> is_space c \<Longrightarrow> strip (replicate n c) = replicate n c"
  by (cases "n = 0") (simp_all add: strip_Nil strip_id)

subsection \<open>One turn of the loop\<close>

lemma chunk_loop_step:
  assumes "start < int (length text)"
    and "e = (if start + cs < int (length text)
              then find_boundary text start (start + cs) puncts else start + cs)"
  shows "chunk_loop text cs ov start chunks =
         chunk_loop text cs ov (e - ov)
           (chunks @ filter (\<lambda>c. c \<noteq> []) [strip (py_slice text start e)])"
  using assms by (subst chunk_loop.simps) (simp add: Let_def)

lemma chunk_loop_done:
  "\<not> start < int (length text) \<Longrightarrow> chunk_loop text cs ov start chunks = Some chunks"
  by (subst chunk_loop.simps) simp


subsection \<open>Texts without boundary markers\<close>

lemma chunk_text_2500:
  assumes len: "length text = 2500" and nm: "no_marker text"
  shows "chunk_text text 1000 200 =
         Some (filter (\<lambda>c. c \<noteq> [])
                 [strip (take 1000 text), strip (take 1000 (drop 800 text)),
                  strip (drop 1600 text), strip (drop 2400 text)])"
proof -
  let ?ne = "\<lambda>c::ustring. c \<noteq> []"
  let ?c1 = "strip (take 1000 text)"
  let ?c2 = "strip (take 1000 (drop 800 text))"
  let ?c3 = "strip (drop 1600 text)"
  let ?c4 = "strip (drop 2400 text)"
  have ne: "text \<noteq> []" using len by auto
  have s1: "chunk_loop text 1000 200 0 [] = chunk_loop text 1000 200 800 (filter ?ne [?c1])"
    using chunk_loop_step[of 0 "text" 1000 1000 200 "[]"] len nm
    by (simp add: find_boundary_no_marker py_slice_nonneg)
  have s2: "chunk_loop text 1000 200 800 (filter ?ne [?c1]) =
            chunk_loop text 1000 200 1600 (filter ?ne [?c1] @ filter ?ne [?c2])"
    using chunk_loop_step[of 800 "text" 1800 1000 200 "filter ?ne [?c1]"] len nm
    by (simp add: find_boundary_no_marker py_slice_nonneg)
  have s3: "chunk_loop text 1000 200 1600 (filter ?ne [?c1] @ filter ?ne [?c2]) =
            chunk_loop text 1000 200 2400 (filter ?ne [?c1] @ filter ?ne [?c2] @ filter ?ne [?c3])"
    using chunk_loop_step[of 1600 "text" 2600 1000 200 "filter ?ne [?c1] @ filter ?ne [?c2]"] len
    by (simp add: py_slice_nonneg)
  have s4: "chunk_loop text 1000 200 2400 (filter ?ne [?c1] @ filter ?ne [?c2] @ filter ?ne [?c3]) =
            chunk_loop text 1000 200 3200
              (filter ?ne [?c1] @ filter ?ne [?c2] @ filter ?ne [?c3] @ filter ?ne [?c4])"
    using chunk_loop_step[of 2400 "text" 3400 1000 200
        "filter ?ne [?c1] @ filter ?ne [?c2] @ filter ?ne [?c3]"] len
    by (simp add: py_slice_nonneg)
  have s5: "chunk_loop text 1000 200 3200
              (filter ?ne [?c1] @ filter ?ne [?c2] @ filter ?ne [?c3] @ filter ?ne [?c4]) =
            Some (filter ?ne [?c1] @ filter ?ne [?c2] @ filter ?ne [?c3] @ filter ?ne [?c4])"
    using len by (intro chunk_loop_done) simp
  have "filter ?ne [?c1] @ filter ?ne [?c2] @ filter ?ne [?c3] @ filter ?ne [?c4] =
        filter ?ne [?c1, ?c2, ?c3, ?c4]"
    by simp
  then show ?thesis
    unfolding chunk_text_def using ne s1 s2 s3 s4 s5 by simp
qed


lemma no_marker_chars:
  assumes "46 \<notin> set t" "12290 \<notin> set t" "65281 \<notin> set t" "1567 \<notin> set t" "10 \<notin> set t"
  shows "no_marker t"
proof -
  have "\<not> sublist p t" if "p \<in> set puncts" for p
  proof
    assume "sublist p t"
    then have "set p \<subseteq> set t" by (rule set_mono_sublist)
    then show False using that assms by (auto simp: puncts_def)
  qed
  then show ?thesis by (simp add: no_marker_def list_all_iff)
qed

lemma not_space_97: "\<not> is_space 97"
  by (simp add: is_space_def)

text \<open>
  Claim C1, as amended. On a text of exactly 2500 characters without boundary marker, with
  \<open>chunk_size = 1000\<close> and \<open>overlap = 200\<close>, the windows cut are \<open>text[0:1000]\<close>,
  \<open>text[800:1800]\<close>, \<open>text[1600:2600]\<close> and \<open>text[2400:3400]\<close>: they start at 0, 800,
  1600 and 2400. The result is the list of these windows, each trimmed, without those that
  trim to the empty string. The last window has length 100, and it is the last chunk as it
  stands when it neither begins nor ends with whitespace.
\<close>

theorem chunk_text_2500_windows:
  assumes "length text = 2500" and "no_marker text"
  shows "chunk_text text 1000 200 =
           Some (filter (\<lambda>c. c \<noteq> [])
                   (map strip [py_slice text 0 1000, py_slice text 800 1800,
                               py_slice text 1600 2600, py_slice text 2400 3400]))
         \<and> length (py_slice text 2400 3400) = 100
         \<and> (\<not> is_space (text ! 2400) \<and> \<not> is_space (text ! 2499) \<longrightarrow>
              (\<exists>cs. chunk_text text 1000 200 = Some (cs @ [py_slice text 2400 3400])))"
proof -
  let ?ne = "\<lambda>c::ustring. c \<noteq> []"
  have eq: "chunk_text text 1000 200 =
         Some (filter ?ne
                 [strip (take 1000 text), strip (take 1000 (drop 800 text)),
                  strip (drop 1600 text), strip (drop 2400 text)])"
    using assms by (rule chunk_text_2500)
  have w4: "py_slice text 2400 3400 = drop 2400 text"
    using assms(1) by (simp add: py_slice_nonneg)
  have l4: "length (drop 2400 text) = 100" using assms(1) by simp
  have last_chunk: "\<exists>cs. chunk_text text 1000 200 = Some (cs @ [drop 2400 text])"
    if sp: "\<not> is_space (text ! 2400)" "\<not> is_space (text ! 2499)"
  proof -
    have ne: "drop 2400 text \<noteq> []" using l4 by auto
    have h: "hd (drop 2400 text) = text ! 2400"
      using assms(1) by (simp add: hd_drop_conv_nth)
    have l: "last (drop 2400 text) = text ! 2499"
      using assms(1) by (simp add: last_conv_nth)
    have st: "strip (drop 2400 text) = drop 2400 text"
      using ne sp h l by (simp add: strip_id)
    have "filter ?ne [strip (take 1000 text), strip (take 1000 (drop 800 text)),
                  strip (drop 1600 text), strip (drop 2400 text)] =
          filter ?ne [strip (take 1000 text), strip (take 1000 (drop 800 text)),
                  strip (drop 1600 text)] @ [drop 2400 text]"
      using st ne by simp
    then show ?thesis using eq by metis
  qed
  show ?thesis
    using eq w4 l4 last_chunk assms(1) by (simp add: py_slice_nonneg)
qed

text \<open>
  The theorem at the text of 2500 letters \<open>a\<close>.
\<close>

theorem chunk_text_2500_windows_witness:
  "length (replicate 2500 (97::nat)) = 2500 \<and> no_marker (replicate 2500 97) \<and>
   chunk_text (replicate 2500 97) 1000 200 =
     Some [replicate 1000 97, replicate 1000 97, replicate 900 97, replicate 100 97]"
proof -
  have l: "length (replicate 2500 (97::nat)) = 2500" by simp
  have n: "no_marker (replicate 2500 97)" by (rule no_marker_chars) simp_all
  show ?thesis
    using chunk_text_2500_windows[OF l n] l n
    by (simp add: py_slice_nonneg strip_replicate not_space_97)
qed

text \<open>
  Claim C1 as stated fails when the text ends with whitespace: for 2499 letters \<open>a\<close>
  followed by a space, a text of 2500 characters without boundary marker, the last chunk has
  length 99.
\<close>

theorem chunk_text_2500_trailing_space:
  "length (replicate 2499 (97::nat) @ [32]) = 2500 \<and> no_marker (replicate 2499 97 @ [32]) \<and>
   chunk_text (replicate 2499 97 @ [32]) 1000 200 =
     Some [replicate 1000 97, replicate 1000 97, replicate 899 97, replicate 99 97] \<and>
   length (last [replicate 1000 (97::nat), replicate 1000 97, replicate 899 97, replicate 99 97])
     \<noteq> 100"
proof -
  have l: "length (replicate 2499 (97::nat) @ [32]) = 2500" by simp
  have n: "no_marker (replicate 2499 97 @ [32])" by (rule no_marker_chars) simp_all
  have tail: "strip (replicate k 97 @ [32]) = replicate k 97" for k
    by (cases "k = 0") (simp_all add: strip_def is_space_def dropWhile_hd)
  show ?thesis
    using chunk_text_2500[OF l n] l n
    by (simp add: strip_replicate not_space_97 tail)
qed


lemma chunk_text_short:
  assumes "int (length text) < cs" and "text \<noteq> []"
  shows "chunk_text text cs ov =
         chunk_loop text cs ov (cs - ov) (filter (\<lambda>c. c \<noteq> []) [strip text])"
proof -
  have "chunk_loop text cs ov 0 [] =
        chunk_loop text cs ov (cs - ov) ([] @ filter (\<lambda>c. c \<noteq> []) [strip (py_slice text 0 cs)])"
    using assms by (intro chunk_loop_step) simp_all
  moreover have "py_slice text 0 cs = text"
    using assms(1) by (simp add: py_slice_nonneg)
  ultimately show ?thesis using assms(2) by (simp add: chunk_text_def)
qed

text \<open>
  Claim C4, as amended. A text shorter than \<open>chunk_size\<close> and no longer than
  \<open>chunk_size - overlap\<close> (with the defaults: at most 800 characters) gives exactly one
  chunk, the trimmed text, or no chunk when the text trims to the empty string.
\<close>

theorem chunk_text_single_window:
  assumes "int (length text) < chunk_size" and "int (length text) \<le> chunk_size - overlap"
  shows "chunk_text text chunk_size overlap =
         Some (if strip text = [] then [] else [strip text])"
proof (cases "text = []")
  case True
  then show ?thesis by (simp add: chunk_text_def strip_Nil)
next
  case False
  have "chunk_loop text chunk_size overlap (chunk_size - overlap)
          (filter (\<lambda>c. c \<noteq> []) [strip text]) =
        Some (filter (\<lambda>c. c \<noteq> []) [strip text])"
    using assms(2) by (intro chunk_loop_done) simp
  then show ?thesis using chunk_text_short[OF assms(1) False, of overlap] by simp
qed

text \<open>
  The theorem at the defaults, on the text \<open>' ab '\<close>.
\<close>

theorem chunk_text_single_window_witness:
  "int (length [32, 97, 98, 32 :: nat]) < 1000 \<and> int (length [32, 97, 98, 32 :: nat]) \<le> 1000 - 200 \<and>
   chunk_text [32, 97, 98, 32] 1000 200 = Some [[97, 98]]"
proof -
  have a: "int (length [32, 97, 98, 32 :: nat]) < 1000" by simp
  have b: "int (length [32, 97, 98, 32 :: nat]) \<le> 1000 - 200" by simp
  have "strip [32, 97, 98, 32] = [97, 98]" by (simp add: strip_def is_space_def)
  then show ?thesis using chunk_text_single_window[OF a b] by simp
qed

text \<open>
  Claim C4 as stated fails between 801 and 999 characters: the window after the first one
  starts at \<open>chunk_size - overlap = 800\<close>, still inside the text. For 900 letters \<open>a\<close> the
  result has two chunks, the text and its last 100 characters.
\<close>

theorem chunk_text_900_two_chunks:
  "int (length (replicate 900 (97::nat))) < 1000 \<and>
   chunk_text (replicate 900 97) 1000 200 = Some [replicate 900 97, replicate 100 97] \<and>
   strip (replicate 900 97) = replicate 900 97"
proof -
  let ?t = "replicate 900 (97::nat)"
  have a: "int (length ?t) < 1000" by simp
  have ne: "?t \<noteq> []" by simp
  have s1: "chunk_text ?t 1000 200 = chunk_loop ?t 1000 200 800 [?t]"
    using chunk_text_short[OF a ne, of 200] by (simp add: strip_replicate not_space_97)
  have s2: "chunk_loop ?t 1000 200 800 [?t] =
            chunk_loop ?t 1000 200 1600 ([?t] @ filter (\<lambda>c. c \<noteq> []) [strip (py_slice ?t 800 1800)])"
    using chunk_loop_step[of 800 ?t 1800 1000 200 "[?t]"] by simp
  have w: "py_slice ?t 800 1800 = replicate 100 97" by (simp add: py_slice_nonneg)
  have s3: "chunk_loop ?t 1000 200 1600 [?t, replicate 100 97] = Some [?t, replicate 100 97]"
    by (intro chunk_loop_done) simp
  show ?thesis
    using s1 s2 s3 by (simp add: w strip_replicate not_space_97)
qed

text \<open>
  Claim C2 at the text \<open>'. '\<close> followed by 999 letters \<open>a\<close>, with the defaults. The first
  window is cut after the marker at offset 0, so the next start is \<open>2 - 200 = -198\<close>; the
  slice \<open>text[-198:802]\<close> counts its start from the end of the text and is empty; the third
  window starts at 602. The characters at offsets 2 to 601 are in no chunk: the two chunks
  returned hold 400 of the 1001 characters.
\<close>

theorem chunk_text_early_marker_loses_text:
  "chunk_text ([46, 32] @ replicate 999 97) 1000 200 = Some [[46], replicate 399 97]"
proof -
  let ?t = "[46, 32] @ replicate 999 (97::nat)"
  have len: "length ?t = 1001" by simp
  have w1: "py_slice ?t 0 1000 = [46, 32] @ replicate 998 97"
    by (simp add: py_slice_nonneg)
  have r1: "rfind (py_slice ?t 0 1000) [46, 32] = int 0"
    unfolding w1 by (rule rfind_last_hd) (auto simp: nth_Cons')
  have b1: "find_boundary ?t 0 1000 puncts = 2"
    unfolding puncts_def using find_boundary_first[OF r1] by simp
  have c1: "strip (py_slice ?t 0 2) = [46]"
    by (simp add: py_slice_nonneg strip_def is_space_def)
  have s1: "chunk_loop ?t 1000 200 0 [] = chunk_loop ?t 1000 200 (- 198) [[46]]"
    using chunk_loop_step[of 0 ?t 2 1000 200 "[]"] b1 c1 by simp
  have w2: "py_slice ?t (- 198) 802 = []"
    by (rule py_slice_wrapped_empty) simp_all
  have b2: "find_boundary ?t (- 198) 802 puncts = 802"
    using w2 by (rule find_boundary_empty_window)
  have s2: "chunk_loop ?t 1000 200 (- 198) [[46]] = chunk_loop ?t 1000 200 602 [[46]]"
    using chunk_loop_step[of "- 198" ?t 802 1000 200 "[[46]]"] b2 w2 by (simp add: strip_Nil)
  have w3: "py_slice ?t 602 1602 = replicate 399 97"
    by (simp add: py_slice_nonneg)
  have s3: "chunk_loop ?t 1000 200 602 [[46]] = chunk_loop ?t 1000 200 1402 [[46], replicate 399 97]"
    using chunk_loop_step[of 602 ?t 1602 1000 200 "[[46]]"] w3
    by (simp add: strip_replicate not_space_97)
  have s4: "chunk_loop ?t 1000 200 1402 [[46], replicate 399 97] = Some [[46], replicate 399 97]"
    by (intro chunk_loop_done) simp
  show ?thesis
    unfolding chunk_text_def using s1 s2 s3 s4 by simp
qed


text \<open>
  A turn of the loop that leaves \<open>start\<close> where it was is repeated forever.
\<close>

lemma chunk_loop_stall:
  assumes lt: "start < int (length text)"
    and stall: "(if start + cs < int (length text)
                 then find_boundary text start (start + cs) puncts else start + cs) - ov = start"
  shows "chunk_loop text cs ov start chunks = None"
proof (rule ccontr)
  assume "chunk_loop text cs ov start chunks \<noteq> None"
  then obtain y where y: "chunk_loop text cs ov start chunks = Some y" by auto
  have "\<not> (text = text \<and> cs = cs \<and> ov = ov \<and> start = start)"
  proof (rule chunk_loop.raw_induct
      [where P = "\<lambda>t c v s ch r. \<not> (t = text \<and> c = cs \<and> v = ov \<and> s = start)", OF _ y],
      goal_cases)
    case (1 f t c v s ch r)
    show ?case
    proof
      assume eq: "t = text \<and> c = cs \<and> v = ov \<and> s = start"
      have "\<exists>ch'. f text cs ov start ch' = Some r"
        using 1(2) eq lt stall by (auto simp: Let_def split: if_splits)
      then show False using 1(1) by blast
    qed
  qed
  then show False by simp
qed

text \<open>
  Claim C3 at the text of 198 letters \<open>a\<close>, then \<open>'. '\<close>, then 1000 letters \<open>a\<close>, with the
  defaults. The first window is cut after the marker, at 200, and the next start is
  \<open>200 - 200 = 0\<close> again: the call never returns.
\<close>

theorem chunk_text_never_returns:
  "chunk_text (replicate 198 97 @ [46, 32] @ replicate 1000 97) 1000 200 = None"
proof -
  let ?t = "replicate 198 (97::nat) @ [46, 32] @ replicate 1000 97"
  have w: "py_slice ?t 0 1000 = replicate 198 97 @ [46, 32] @ replicate 800 97"
    by (simp add: py_slice_nonneg)
  have r: "rfind (py_slice ?t 0 1000) [46, 32] = int 198"
    unfolding w by (rule rfind_last_hd) (auto simp: nth_append nth_Cons')
  have b: "find_boundary ?t 0 1000 puncts = 200"
    unfolding puncts_def using find_boundary_first[OF r] by simp
  have "chunk_loop ?t 1000 200 0 [] = None"
    by (rule chunk_loop_stall) (use b in simp_all)
  then show ?thesis by (simp add: chunk_text_def)
qed

section \<open>Properties of the upload check\<close>

lemma is_duplicate_iff: "is_duplicate docs file_hash \<longleftrightarrow> file_hash \<in> di_hash ` set docs"
  by (induction docs) auto

text \<open>
  Claim C5. When the bytes read from the upload hash to the digest of a tracked document,
  \<open>save_uploaded_file\<close> returns \<open>(None, "Duplicate file detected")\<close> and the state after
  the call is the state before it: the tracked documents are the same and nothing was written
  to disk.
\<close>

theorem save_uploaded_file_duplicate:
  assumes "uf_read uploaded = Inr file_bytes"
    and "sha256_hex file_bytes \<in> di_hash ` set (documents st)"
  shows "save_uploaded_file sha256_hex data_path write_file now st uploaded =
         ((None, Some ''Duplicate file detected''), st)"
  using assms by (simp add: save_uploaded_file_def is_duplicate_iff)

text \<open>
  The theorem at a session that tracks one document, for an upload with the same bytes under
  another name.
\<close>

theorem save_uploaded_file_duplicate_witness:
  "save_uploaded_file (\<lambda>b. if b = [1, 2] then ''ab12'' else ''ffff'')
     (\<lambda>name. ''data/'' @ name) (\<lambda>d p b. (d(p \<mapsto> b), None)) ''2024-01-01T00:00:00''
     \<lparr>documents = [\<lparr>di_name = ''a.pdf'', di_path = ''data/a.pdf'', di_hash = ''ab12'',
                     di_size = 2, di_uploaded_at = ''2023-12-31T00:00:00'',
                     di_status = ''uploaded'', di_type = ''application/pdf''\<rparr>],
      disk = [''data/a.pdf'' \<mapsto> [1, 2]]\<rparr>
     \<lparr>uf_name = ''copy.pdf'', uf_type = ''application/pdf'', uf_read = Inr [1, 2]\<rparr> =
   ((None, Some ''Duplicate file detected''),
    \<lparr>documents = [\<lparr>di_name = ''a.pdf'', di_path = ''data/a.pdf'', di_hash = ''ab12'',
                     di_size = 2, di_uploaded_at = ''2023-12-31T00:00:00'',
                     di_status = ''uploaded'', di_type = ''application/pdf''\<rparr>],
      disk = [''data/a.pdf'' \<mapsto> [1, 2]]\<rparr>)"
  by (rule save_uploaded_file_duplicate[where file_bytes = "[1, 2]"]) simp_all

section \<open>Properties of the vector store\<close>

text \<open>
  Claim C6. When the embedding of the query is the empty vector, the \<open>try\<close> block of
  \<open>search\<close> returns without raising, and \<open>search\<close> gives empty lists of documents,
  metadata and distances.
\<close>

theorem search_embedding_failure:
  assumes "get_embedding create_embedding query = []"
  shows "search_body create_embedding collection_query query n_results filter_dict =
           Inr empty_result
         \<and> search create_embedding collection_query query n_results filter_dict =
           \<lparr>res_documents = [], res_metadatas = [], res_distances = []\<rparr>"
  using assms by (simp add: search_def search_body_def empty_result_def)

text \<open>
  The theorem at an embedding service that raises, over a store that would answer the query.
\<close>

theorem search_embedding_failure_witness:
  "get_embedding (\<lambda>t. Inl ''connection error'' :: string + int list) [104, 105] = [] \<and>
   search (\<lambda>t. Inl ''connection error'' :: string + int list)
     (\<lambda>q n (f :: string option).
        Inr \<lparr>qr_documents = [[[120]]], qr_metadatas = [[''m'']], qr_distances = [[0 :: int]]\<rparr>)
     [104, 105] 5 None =
   \<lparr>res_documents = [], res_metadatas = [], res_distances = []\<rparr>"
proof -
  have e: "get_embedding (\<lambda>t. Inl ''connection error'' :: string + int list) [104, 105] = []"
    by (simp add: get_embedding_def)
  show ?thesis
    using e search_embedding_failure[OF e, where n_results = 5 and filter_dict = None and
        collection_query = "\<lambda>q n (f :: string option).
        Inr \<lparr>qr_documents = [[[120]]], qr_metadatas = [[''m'']], qr_distances = [[0 :: int]]\<rparr>"]
    by simp
qed

text \<open>
  The four parallel sequences, zipped, are the list of their rows by position.
\<close>

lemma zip4_nth:
  assumes "length bs = length as" "length cs = length as" "length ds = length as"
  shows "zip as (zip bs (zip cs ds)) =
         map (\<lambda>k. (as ! k, bs ! k, cs ! k, ds ! k)) [0..<length as]"
  using assms by (intro nth_equalityI) simp_all

lemma valid_data_positions:
  assumes "length bs = length as" "length cs = length as" "length ds = length as"
  shows "filter (\<lambda>(a, b, c, d). P b) (zip as (zip bs (zip cs ds))) =
         map (\<lambda>k. (as ! k, bs ! k, cs ! k, ds ! k)) (filter (\<lambda>k. P (bs ! k)) [0..<length as])"
  unfolding zip4_nth[OF assms] filter_map by (simp add: comp_def)

text \<open>
  What \<open>add_documents\<close> hands to the store, whatever the store does with it.
\<close>

lemma add_documents_rows:
  assumes "length metadatas = length chunks" and "length ids = length chunks"
  shows "add_documents create_embedding collection_add collection chunks metadatas ids =
         (let kept = filter (\<lambda>k. get_embedding (create_embedding k) (chunks ! k) \<noteq> [])
                       [0..<length chunks]
          in if kept = [] then (False, collection)
             else
               (case collection_add collection
                       (map (\<lambda>k. chunks ! k) kept)
                       (map (\<lambda>k. get_embedding (create_embedding k) (chunks ! k)) kept)
                       (map (\<lambda>k. metadatas ! k) kept)
                       (map (\<lambda>k. ids ! k) kept) of
                  (collection', None) \<Rightarrow> (True, collection')
                | (collection', Some e) \<Rightarrow> (False, collection')))"
proof -
  let ?embs = "map (\<lambda>(k, chunk). get_embedding (create_embedding k) chunk) (enumerate 0 chunks)"
  let ?kept = "filter (\<lambda>k. get_embedding (create_embedding k) (chunks ! k) \<noteq> [])
                 [0..<length chunks]"
  have le: "length ?embs = length chunks" by simp
  have vd: "filter (\<lambda>(chunk, emb, meta, cid). emb \<noteq> [])
              (zip chunks (zip ?embs (zip metadatas ids))) =
        map (\<lambda>k. (chunks ! k, ?embs ! k, metadatas ! k, ids ! k))
          (filter (\<lambda>k. ?embs ! k \<noteq> []) [0..<length chunks])"
    by (rule valid_data_positions[OF le assms])
  have k: "filter (\<lambda>k. ?embs ! k \<noteq> []) [0..<length chunks] = ?kept"
    by (rule filter_cong) (simp_all add: nth_enumerate_eq)
  have e: "map (\<lambda>k. ?embs ! k) ?kept =
           map (\<lambda>k. get_embedding (create_embedding k) (chunks ! k)) ?kept"
    by (rule map_cong) (simp_all add: nth_enumerate_eq)
  show ?thesis
    unfolding add_documents_def Let_def vd k
    by (simp add: comp_def e)
qed

lemma zip4_map:
  "zip (map f xs) (zip (map g xs) (zip (map h xs) (map i xs))) =
   map (\<lambda>x. (f x, g x, h x, i x)) xs"
  by (induction xs) simp_all

text \<open>
  Claim C9, as amended. For inputs of equal length, let \<open>kept\<close> be the positions, in order,
  whose call of the embedding service gave a non-empty vector. With no such position
  \<open>add_documents\<close> returns \<open>False\<close> and leaves the collection alone. Otherwise the
  store's \<open>add\<close> is called once with the chunks, embeddings, metadata and ids of exactly
  these positions, in the same order in all four lists, and the result is \<open>True\<close> unless
  the store raises. Over the store's \<open>add\<close> this is not an upsert: the rows whose id the
  collection does not hold are stored, a row whose id it already holds is dropped and the
  stored record stays, the result still being \<open>True\<close>; a batch that repeats an id is
  refused and the result is \<open>False\<close>.
\<close>

theorem add_documents_survivors:
  assumes "length metadatas = length chunks" and "length ids = length chunks"
  shows "(let kept = filter (\<lambda>k. get_embedding (create_embedding k) (chunks ! k) \<noteq> [])
                       [0..<length chunks];
              rows = map (\<lambda>k. (ids ! k, chunks ! k,
                               get_embedding (create_embedding k) (chunks ! k), metadatas ! k))
                       kept
          in add_documents create_embedding collection_add collection chunks metadatas ids =
               (if kept = [] then (False, collection)
                else
                  (case collection_add collection
                          (map (\<lambda>k. chunks ! k) kept)
                          (map (\<lambda>k. get_embedding (create_embedding k) (chunks ! k)) kept)
                          (map (\<lambda>k. metadatas ! k) kept)
                          (map (\<lambda>k. ids ! k) kept) of
                     (collection', None) \<Rightarrow> (True, collection')
                   | (collection', Some e) \<Rightarrow> (False, collection')))
             \<and> add_documents create_embedding store_add stored chunks metadatas ids =
               (if kept = [] then (False, stored)
                else if \<not> distinct (map (\<lambda>k. ids ! k) kept) then (False, stored)
                else (True,
                      stored @
                        filter (\<lambda>(cid, doc, emb, meta). cid \<notin> fst ` set stored) rows)))"
proof -
  have a: "zip (map (\<lambda>k. ids ! k) kept)
             (zip (map (\<lambda>k. chunks ! k) kept)
                (zip (map (\<lambda>k. get_embedding (create_embedding k) (chunks ! k)) kept)
                   (map (\<lambda>k. metadatas ! k) kept))) =
           map (\<lambda>k. (ids ! k, chunks ! k,
                      get_embedding (create_embedding k) (chunks ! k), metadatas ! k)) kept"
    for kept :: "nat list"
    by (rule zip4_map)
  show ?thesis
    unfolding add_documents_rows[OF assms] Let_def
    by (simp add: store_add_def a)
qed

text \<open>
  The theorem at three chunks, the first two equal, where the second call of the embedding
  service fails, over a collection that holds one record of another document.
\<close>

theorem add_documents_survivors_witness:
  "add_documents
     (\<lambda>k t. if k = 1 then Inl ''rate limit'' else Inr [int (length t), 7])
     store_add
     [(''h_9'', [120], [5, 5],
       \<lparr>md_document_name = ''old.pdf'', md_chunk_id = 9, md_page = 4, md_uploaded_at = ''t0''\<rparr>)]
     [[97], [97], [99, 99]]
     [\<lparr>md_document_name = ''a.pdf'', md_chunk_id = 0, md_page = 1, md_uploaded_at = ''t1''\<rparr>,
      \<lparr>md_document_name = ''a.pdf'', md_chunk_id = 1, md_page = 1, md_uploaded_at = ''t1''\<rparr>,
      \<lparr>md_document_name = ''a.pdf'', md_chunk_id = 2, md_page = 1, md_uploaded_at = ''t1''\<rparr>]
     [''h_0'', ''h_1'', ''h_2''] =
   (True,
    [(''h_9'', [120], [5, 5],
      \<lparr>md_document_name = ''old.pdf'', md_chunk_id = 9, md_page = 4, md_uploaded_at = ''t0''\<rparr>),
     (''h_0'', [97], [1, 7],
      \<lparr>md_document_name = ''a.pdf'', md_chunk_id = 0, md_page = 1, md_uploaded_at = ''t1''\<rparr>),
     (''h_2'', [99, 99], [2, 7],
      \<lparr>md_document_name = ''a.pdf'', md_chunk_id = 2, md_page = 1, md_uploaded_at = ''t1''\<rparr>)])"
proof -
  let ?ms = "[\<lparr>md_document_name = ''a.pdf'', md_chunk_id = 0, md_page = 1, md_uploaded_at = ''t1''\<rparr>,
      \<lparr>md_document_name = ''a.pdf'', md_chunk_id = 1, md_page = 1, md_uploaded_at = ''t1''\<rparr>,
      \<lparr>md_document_name = ''a.pdf'', md_chunk_id = 2, md_page = 1, md_uploaded_at = ''t1''\<rparr>]"
  have a: "length ?ms = length [[97], [97], [99, 99 :: nat]]" by simp
  have b: "length [''h_0'', ''h_1'', ''h_2''] = length [[97], [97], [99, 99 :: nat]]" by simp
  have u: "[0..<3] = [0, 1, 2]" by (simp add: upt_rec)
  show ?thesis
    using add_documents_survivors[OF a b,
        where create_embedding =
          "\<lambda>k t. if k = 1 then Inl ''rate limit'' else Inr [int (length t), 7]"
          and stored = "[(''h_9'', [120], [5, 5],
       \<lparr>md_document_name = ''old.pdf'', md_chunk_id = 9, md_page = 4, md_uploaded_at = ''t0''\<rparr>)]"
          and collection_add = store_add and collection = "[]"]
    by (simp add: get_embedding_def u Let_def)
qed

text \<open>
  Claim C9 as stated fails for an id the collection already holds: the new row is handed to
  \<open>add\<close>, the call returns \<open>True\<close>, and the collection still holds the old record, where an
  upsert keyed by id would hold the new one.
\<close>

theorem add_documents_existing_id_kept:
  "add_documents (\<lambda>k t. Inr [1 :: int]) store_add
     [(''h_0'', [120], [9],
       \<lparr>md_document_name = ''a.pdf'', md_chunk_id = 0, md_page = 1, md_uploaded_at = ''t0''\<rparr>)]
     [[97]]
     [\<lparr>md_document_name = ''a.pdf'', md_chunk_id = 0, md_page = 1, md_uploaded_at = ''t1''\<rparr>]
     [''h_0''] =
   (True,
    [(''h_0'', [120], [9],
      \<lparr>md_document_name = ''a.pdf'', md_chunk_id = 0, md_page = 1, md_uploaded_at = ''t0''\<rparr>)])
   \<and>
   store_upsert
     [(''h_0'', [120], [9 :: int],
       \<lparr>md_document_name = ''a.pdf'', md_chunk_id = 0, md_page = 1, md_uploaded_at = ''t0''\<rparr>)]
     [[97]] [[1]]
     [\<lparr>md_document_name = ''a.pdf'', md_chunk_id = 0, md_page = 1, md_uploaded_at = ''t1''\<rparr>]
     [''h_0''] =
   ([(''h_0'', [97], [1],
      \<lparr>md_document_name = ''a.pdf'', md_chunk_id = 0, md_page = 1, md_uploaded_at = ''t1''\<rparr>)],
    None)"
  by (simp add: add_documents_def get_embedding_def store_add_def store_upsert_def
      enumerate_eq_zip)

text \<open>
  With distinct ids, removing the ids of the records of a document removes these records and
  no other.
\<close>

lemma store_delete_matching:
  assumes "distinct (map fst collection)"
  shows "filter (\<lambda>(cid, doc, emb, meta).
            cid \<notin> set (map fst (filter (\<lambda>(cid, doc, emb, meta). md_document_name meta = name)
                                  collection)))
           collection =
         filter (\<lambda>(cid, doc, emb, meta). md_document_name meta \<noteq> name) collection"
proof (rule filter_cong[OF refl])
  fix x assume x: "x \<in> set collection"
  obtain cid doc emb meta where xe: "x = (cid, doc, emb, meta)" by (cases x) auto
  have "cid \<in> fst ` {e \<in> set collection. md_document_name (snd (snd (snd e))) = name}
        \<longleftrightarrow> md_document_name meta = name"
  proof
    assume "cid \<in> fst ` {e \<in> set collection. md_document_name (snd (snd (snd e))) = name}"
    then obtain e where e: "e \<in> set collection" "md_document_name (snd (snd (snd e))) = name"
      "fst e = cid" by auto
    have "e = x"
      using assms e(1) x e(3) xe by (metis eq_key_imp_eq_value prod.collapse fst_conv)
    then show "md_document_name meta = name" using e(2) xe by simp
  next
    assume "md_document_name meta = name"
    then show "cid \<in> fst ` {e \<in> set collection. md_document_name (snd (snd (snd e))) = name}"
      using x xe by force
  qed
  moreover have "set (map fst (filter (\<lambda>(cid, doc, emb, meta). md_document_name meta = name)
                                  collection)) =
        fst ` {e \<in> set collection. md_document_name (snd (snd (snd e))) = name}"
    by (auto simp: case_prod_beta)
  ultimately show "(case x of (cid, doc, emb, meta) \<Rightarrow>
            cid \<notin> set (map fst (filter (\<lambda>(cid, doc, emb, meta). md_document_name meta = name)
                                  collection))) =
        (case x of (cid, doc, emb, meta) \<Rightarrow> md_document_name meta \<noteq> name)"
    using xe by simp
qed

text \<open>
  Claim C10. Over the store of the specification, with distinct ids: when some record has the
  given \<open>document_name\<close>, \<open>delete_document\<close> returns \<open>True\<close> and the collection loses
  exactly the records with this name; when none has, it returns \<open>False\<close> and the collection
  is unchanged.
\<close>

theorem delete_document_matching:
  assumes "distinct (map fst collection)"
  shows "delete_document store_get store_delete collection name =
         (if \<exists>(cid, doc, emb, meta) \<in> set collection. md_document_name meta = name
          then (True, filter (\<lambda>(cid, doc, emb, meta). md_document_name meta \<noteq> name) collection)
          else (False, collection))"
proof -
  have "filter (\<lambda>(cid, doc, emb, meta). md_document_name meta = name) collection \<noteq> [] \<longleftrightarrow>
        (\<exists>(cid, doc, emb, meta) \<in> set collection. md_document_name meta = name)"
    by (auto simp: filter_empty_conv)
  then show ?thesis
    unfolding delete_document_def store_get_def store_delete_def
    using store_delete_matching[OF assms, of name] by simp
qed


text \<open>
  The theorem at a collection with two chunks of \<open>a.pdf\<close> and one of \<open>b.pdf\<close>, and at the
  collection left after the deletion of \<open>a.pdf\<close>.
\<close>

theorem delete_document_matching_witness:
  "delete_document store_get store_delete
     [(''h1_0'', [97], [1 :: int],
       \<lparr>md_document_name = ''a.pdf'', md_chunk_id = 0, md_page = 1, md_uploaded_at = ''t1''\<rparr>),
      (''h2_0'', [98], [2],
       \<lparr>md_document_name = ''b.pdf'', md_chunk_id = 0, md_page = 1, md_uploaded_at = ''t2''\<rparr>),
      (''h1_1'', [99], [3],
       \<lparr>md_document_name = ''a.pdf'', md_chunk_id = 1, md_page = 1, md_uploaded_at = ''t1''\<rparr>)]
     ''a.pdf'' =
   (True,
    [(''h2_0'', [98], [2],
      \<lparr>md_document_name = ''b.pdf'', md_chunk_id = 0, md_page = 1, md_uploaded_at = ''t2''\<rparr>)])
   \<and>
   delete_document store_get store_delete
     [(''h2_0'', [98], [2 :: int],
       \<lparr>md_document_name = ''b.pdf'', md_chunk_id = 0, md_page = 1, md_uploaded_at = ''t2''\<rparr>)]
     ''a.pdf'' =
   (False,
    [(''h2_0'', [98], [2],
      \<lparr>md_document_name = ''b.pdf'', md_chunk_id = 0, md_page = 1, md_uploaded_at = ''t2''\<rparr>)])"
proof -
  let ?a0 = "(''h1_0'', [97::nat], [1 :: int],
       \<lparr>md_document_name = ''a.pdf'', md_chunk_id = 0, md_page = 1, md_uploaded_at = ''t1''\<rparr>)"
  let ?b0 = "(''h2_0'', [98::nat], [2 :: int],
       \<lparr>md_document_name = ''b.pdf'', md_chunk_id = 0, md_page = 1, md_uploaded_at = ''t2''\<rparr>)"
  let ?a1 = "(''h1_1'', [99::nat], [3 :: int],
       \<lparr>md_document_name = ''a.pdf'', md_chunk_id = 1, md_page = 1, md_uploaded_at = ''t1''\<rparr>)"
  have d3: "distinct (map fst [?a0, ?b0, ?a1])" by simp
  have d1: "distinct (map fst [?b0])" by simp
  show ?thesis
    using delete_document_matching[OF d3, of "''a.pdf''"]
      delete_document_matching[OF d1, of "''a.pdf''"]
    by simp
qed

section \<open>Properties of the extractors\<close>






text \<open>
  The page loop of \<open>process_pdf\<close> over pages whose text is extracted.
\<close>

lemma read_pages_texts:
  "read_pages (map Inr texts @ rest) n pages full_text total_len =
   read_pages rest (n + length texts)
     (pages @ map (\<lambda>(k, t). PdfPage (k + 1) t (length t)) (enumerate n texts))
     (full_text @ texts)
     (total_len + sum_list (map (\<lambda>t. length (strip t)) texts))"
  by (induction texts arbitrary: n pages full_text total_len) (simp_all add: add.assoc)


lemma read_pages_until:
  "read_pages (map Inr texts @ Inl e # rest) 0 [] [] 0 =
   (Some e, map (\<lambda>(k, t). PdfPage (k + 1) t (length t)) (enumerate 0 texts), texts,
    sum_list (map (\<lambda>t. length (strip t)) texts))"
  using read_pages_texts[of texts "Inl e # rest" 0 "[]" "[]" 0] by simp





text \<open>
  Claim C7, as amended. When the call of the extractor of the declared type raises,
  \<open>process_file\<close> returns status \<open>error\<close> with the message under \<open>error\<close> and no text. The
  PDF extractor never raises, and \<open>process_file\<close> reports its result as \<open>success\<close>: when
  the extraction of a page raises, that result holds the text of the pages read before it.
\<close>

theorem process_file_extractor_raises:
  "(supported_types file_type = Some processor \<longrightarrow> processor lb ocr file_path = Inl e \<longrightarrow>
      process_file lb ocr file_path file_type =
        \<lparr>ex_text = Some [], ex_pages = [], ex_metadata = NoMeta, ex_status = Some ''error'',
         ex_error = Some e\<rparr>)
   \<and> ex_status (process_file lb ocr file_path ''application/pdf'') = Some ''success''
   \<and> (pdf_reader lb file_path = Inr (map Inr texts @ Inl e # rest) \<longrightarrow>
        process_file lb ocr file_path ''application/pdf'' =
          \<lparr>ex_text = Some (join [10, 10] texts),
           ex_pages = map (\<lambda>(k, t). PdfPage (k + 1) t (length t)) (enumerate 0 texts),
           ex_metadata = PdfMeta (length texts) ''text_extraction'' None,
           ex_status = Some ''success'', ex_error = None\<rparr>)"
proof (intro conjI impI)
  assume "supported_types file_type = Some processor" and "processor lb ocr file_path = Inl e"
  then show "process_file lb ocr file_path file_type =
        \<lparr>ex_text = Some [], ex_pages = [], ex_metadata = NoMeta, ex_status = Some ''error'',
         ex_error = Some e\<rparr>"
    by (simp add: process_file_def)
next
  show "ex_status (process_file lb ocr file_path ''application/pdf'') = Some ''success''"
    by (simp add: process_file_def supported_types_def)
next
  assume "pdf_reader lb file_path = Inr (map Inr texts @ Inl e # rest)"
  then have "process_pdf lb ocr file_path =
             text_extraction_result
               (map (\<lambda>(k, t). PdfPage (k + 1) t (length t)) (enumerate 0 texts)) texts"
    by (simp add: process_pdf_def read_pages_until)
  then show "process_file lb ocr file_path ''application/pdf'' =
          \<lparr>ex_text = Some (join [10, 10] texts),
           ex_pages = map (\<lambda>(k, t). PdfPage (k + 1) t (length t)) (enumerate 0 texts),
           ex_metadata = PdfMeta (length texts) ''text_extraction'' None,
           ex_status = Some ''success'', ex_error = None\<rparr>"
    by (simp add: process_file_def supported_types_def text_extraction_result_def)
qed

text \<open>
  The theorem at a Word file whose parser raises, and at a PDF whose third page raises.
\<close>

theorem process_file_extractor_raises_witness:
  "process_file
     \<lparr>pdf_reader = (\<lambda>p. Inr [Inr [112, 49], Inr [112, 50], Inl ''cannot decode page'']),
      docx_document = (\<lambda>p. Inl ''bad zip file''),
      load_workbook = (\<lambda>p. Inl ''not an xlsx''), image_open = (\<lambda>p. Inl ''not an image'')\<rparr>
     None ''report.docx''
     ''application/vnd.openxmlformats-officedocument.wordprocessingml.document'' =
   \<lparr>ex_text = Some [], ex_pages = [], ex_metadata = NoMeta, ex_status = Some ''error'',
    ex_error = Some ''bad zip file''\<rparr>
   \<and>
   process_file
     \<lparr>pdf_reader = (\<lambda>p. Inr [Inr [112, 49], Inr [112, 50], Inl ''cannot decode page'']),
      docx_document = (\<lambda>p. Inl ''bad zip file''),
      load_workbook = (\<lambda>p. Inl ''not an xlsx''), image_open = (\<lambda>p. Inl ''not an image'')\<rparr>
     None ''report.pdf'' ''application/pdf'' =
   \<lparr>ex_text = Some [112, 49, 10, 10, 112, 50],
    ex_pages = [PdfPage 1 [112, 49] 2, PdfPage 2 [112, 50] 2],
    ex_metadata = PdfMeta 2 ''text_extraction'' None,
    ex_status = Some ''success'', ex_error = None\<rparr>"
proof -
  let ?lb = "\<lparr>pdf_reader = (\<lambda>p. Inr [Inr [112, 49], Inr [112, 50], Inl ''cannot decode page'']),
      docx_document = (\<lambda>p. Inl ''bad zip file''),
      load_workbook = (\<lambda>p. Inl ''not an xlsx''), image_open = (\<lambda>p. Inl ''not an image'')\<rparr>"
  let ?docx = "''application/vnd.openxmlformats-officedocument.wordprocessingml.document''"
  have st: "supported_types ?docx = Some (\<lambda>lb ocr file_path. process_docx lb file_path)"
    by (simp add: supported_types_def)
  have ex: "(\<lambda>lb ocr file_path. process_docx lb file_path) ?lb None ''report.docx'' =
            Inl ''bad zip file''"
    by (simp add: process_docx_def)
  have rd: "pdf_reader ?lb ''report.pdf'' =
            Inr (map Inr [[112, 49], [112, 50]] @ Inl ''cannot decode page'' # [])"
    by simp
  have a: "process_file ?lb None ''report.docx'' ?docx =
           \<lparr>ex_text = Some [], ex_pages = [], ex_metadata = NoMeta, ex_status = Some ''error'',
            ex_error = Some ''bad zip file''\<rparr>"
    using process_file_extractor_raises[of ?docx "\<lambda>lb ocr file_path. process_docx lb file_path"
        ?lb None "''report.docx''" "''bad zip file''", THEN conjunct1, rule_format, OF st ex]
    by simp
  have b: "process_file ?lb None ''report.pdf'' ''application/pdf'' =
           \<lparr>ex_text = Some [112, 49, 10, 10, 112, 50],
            ex_pages = [PdfPage 1 [112, 49] 2, PdfPage 2 [112, 50] 2],
            ex_metadata = PdfMeta 2 ''text_extraction'' None,
            ex_status = Some ''success'', ex_error = None\<rparr>"
    using process_file_extractor_raises[where lb = ?lb and file_path = "''report.pdf''"
        and texts = "[[112, 49], [112, 50]]" and e = "''cannot decode page''" and rest = "[]"
        and ocr = None,
        THEN conjunct2, THEN conjunct2, rule_format, OF rd]
    by (simp add: enumerate_eq_zip upt_rec)
  show ?thesis using a b by simp
qed

text \<open>
  Claim C7 as stated fails for a PDF: when the extraction of the second of three pages raises,
  \<open>process_file\<close> returns status \<open>success\<close> with the text of the first page alone.
\<close>

theorem process_file_pdf_partial_success:
  "process_file
     \<lparr>pdf_reader = (\<lambda>p. Inr [Inr [112, 49], Inl ''cannot decode page'', Inr [112, 51]]),
      docx_document = (\<lambda>p. Inl ''not a docx''),
      load_workbook = (\<lambda>p. Inl ''not an xlsx''), image_open = (\<lambda>p. Inl ''not an image'')\<rparr>
     None ''report.pdf'' ''application/pdf'' =
   \<lparr>ex_text = Some [112, 49], ex_pages = [PdfPage 1 [112, 49] 2],
    ex_metadata = PdfMeta 1 ''text_extraction'' None,
    ex_status = Some ''success'', ex_error = None\<rparr>"
  by (simp add: process_file_def supported_types_def process_pdf_def text_extraction_result_def)

end
